theory Spec2Isabelle
  imports Complex_Main "HOL-Library.FSet"
begin

section \<open>Names: \<open>make_name_unique\<close>\<close>

text \<open>
  Python renders the counter with \<open>str\<close>: decimal digits, most significant first, no
  leading zero. The counter starts at 1 and only grows, so it is a natural number.
\<close>

definition digit_char :: "nat \<Rightarrow> char" where
  "digit_char d = ''0123456789'' ! d"

function str_nat :: "nat \<Rightarrow> string" where
  "str_nat n = (if n < 10 then [digit_char n] else str_nat (n div 10) @ [digit_char (n mod 10)])"
  by pat_completeness auto
termination
  by (relation "measure (\<lambda>n. n)") auto

declare str_nat.simps [simp del]

text \<open>The f-string \<^verbatim>\<open>f"{orig_name}_{cnt}"\<close>.\<close>

definition numbered :: "string \<Rightarrow> nat \<Rightarrow> string" where
  "numbered orig_name cnt = orig_name @ ''_'' @ str_nat cnt"

text \<open>
  The candidates still ahead of the loop that are taken: the loop's variant. It is finite
  because distinct counters give distinct candidate names.
\<close>

definition pending :: "string \<Rightarrow> string fset \<Rightarrow> nat \<Rightarrow> nat set" where
  "pending orig_name names cnt = {k. cnt \<le> k \<and> numbered orig_name k |\<in>| names}"

lemma digit_char_inj: "a < 10 \<Longrightarrow> b < 10 \<Longrightarrow> digit_char a = digit_char b \<Longrightarrow> a = b"
proof -
  assume a: "a < 10" and b: "b < 10" and eq: "digit_char a = digit_char b"
  have d: "distinct ''0123456789''" by simp
  have l: "length ''0123456789'' = 10" by simp
  from a b eq show "a = b"
    unfolding digit_char_def using nth_eq_iff_index_eq [OF d, of a b] l by simp
qed

lemma str_nat_nonempty: "str_nat n \<noteq> []"
  by (subst str_nat.simps) simp

lemma str_nat_inj: "str_nat m = str_nat n \<Longrightarrow> m = n"
proof (induction m arbitrary: n rule: str_nat.induct)
  case (1 m)
  show ?case
  proof (cases "m < 10")
    case True
    note m = this
    show ?thesis
    proof (cases "n < 10")
      case True
      with m "1.prems" show ?thesis
        by (simp add: str_nat.simps [of m] str_nat.simps [of n] digit_char_inj)
    next
      case False
      with m "1.prems" show ?thesis
        using str_nat_nonempty [of "n div 10"]
        by (simp add: str_nat.simps [of m] str_nat.simps [of n])
    qed
  next
    case False
    note m = this
    show ?thesis
    proof (cases "n < 10")
      case True
      with m "1.prems" show ?thesis
        using str_nat_nonempty [of "m div 10"]
        by (simp add: str_nat.simps [of m] str_nat.simps [of n])
    next
      case False
      with m "1.prems" have eq: "str_nat (m div 10) = str_nat (n div 10)"
        and d: "digit_char (m mod 10) = digit_char (n mod 10)"
        by (simp_all add: str_nat.simps [of m] str_nat.simps [of n])
      from "1.IH" [OF m eq] have "m div 10 = n div 10" .
      moreover from d have "m mod 10 = n mod 10"
        by (intro digit_char_inj) simp_all
      ultimately show ?thesis
        by (metis div_mult_mod_eq)
    qed
  qed
qed

lemma numbered_inj: "numbered orig_name j = numbered orig_name k \<Longrightarrow> j = k"
  by (simp add: numbered_def str_nat_inj)

lemma finite_candidates: "finite {k. numbered orig_name k |\<in>| names}"
proof -
  have "{k. numbered orig_name k |\<in>| names} = numbered orig_name -` fset names"
    by auto
  moreover have "finite (numbered orig_name -` fset names)"
    by (rule finite_vimageI) (auto simp: inj_on_def dest: numbered_inj)
  ultimately show ?thesis by simp
qed

lemma finite_pending: "finite (pending orig_name names cnt)"
  by (rule finite_subset [OF _ finite_candidates [of orig_name names]]) (auto simp: pending_def)

text \<open>
  The \<^verbatim>\<open>while name in names\<close> loop of \<open>make_name_unique\<close>, with its two variables
  \<open>name\<close> and \<open>cnt\<close>. \<open>names\<close> is a Python set, hence finite.
\<close>

function make_name_unique_loop :: "string \<Rightarrow> string fset \<Rightarrow> string \<Rightarrow> nat \<Rightarrow> string" where
  "make_name_unique_loop orig_name names name cnt =
     (if name |\<in>| names
      then make_name_unique_loop orig_name names (numbered orig_name cnt) (cnt + 1)
      else name)"
  by pat_completeness auto
termination
proof (relation "measure (\<lambda>(orig_name, names, name, cnt).
          card (pending orig_name names cnt) + (if name |\<in>| names then 1 else 0))")
  show "wf (measure (\<lambda>(orig_name, names, name, cnt).
          card (pending orig_name names cnt) + (if name |\<in>| names then 1 else 0)))"
    by simp
next
  fix orig_name :: string and names :: "string fset" and name :: string and cnt :: nat
  assume mem: "name |\<in>| names"
  have split: "pending orig_name names cnt =
      (if numbered orig_name cnt |\<in>| names then insert cnt (pending orig_name names (cnt + 1))
       else pending orig_name names (cnt + 1))"
    by (auto simp: pending_def le_Suc_eq Suc_le_eq intro: le_neq_implies_less)
  have notin: "cnt \<notin> pending orig_name names (cnt + 1)"
    by (simp add: pending_def)
  have "card (pending orig_name names (cnt + 1)) + (if numbered orig_name cnt |\<in>| names then 1 else 0)
      = card (pending orig_name names cnt)"
    using notin finite_pending [of orig_name names "cnt + 1"] by (simp add: split)
  with mem show "((orig_name, names, numbered orig_name cnt, cnt + 1), (orig_name, names, name, cnt))
      \<in> measure (\<lambda>(orig_name, names, name, cnt).
          card (pending orig_name names cnt) + (if name |\<in>| names then 1 else 0))"
    by simp
qed

declare make_name_unique_loop.simps [simp del]

definition make_name_unique :: "string \<Rightarrow> string fset \<Rightarrow> string" where
  "make_name_unique orig_name names = make_name_unique_loop orig_name names orig_name 1"

section \<open>Identifiers, exceptions and the lock table\<close>

type_synonym object_id = string
type_synonym owner_id = string

text \<open>
  \<^verbatim>\<open>obj_ids: Union[str, Iterable[str]]\<close>: one id or several. \<open>get_unlocked_objects\<close>
  wraps a single id into a list itself; the lock object does the same for the wrappers.
\<close>

datatype obj_ids = OneId object_id | ManyIds "object_id list"

fun ids_of :: "obj_ids \<Rightarrow> object_id list" where
  "ids_of (OneId i) = [i]"
| "ids_of (ManyIds xs) = xs"

text \<open>
  The exceptions that \<^verbatim>\<open>helpers.py\<close> names, each with its message, and one constructor
  for every exception outside the \<open>Arcor2Exception\<close> hierarchy (\<open>KeyError\<close>,
  \<open>CancelledError\<close>, ...). The lock exceptions and the not-found condition are taken to
  derive from \<open>Arcor2Exception\<close>, the base class of the application's own errors.
\<close>

datatype exn =
    Arcor2Exception string
  | LockingException string
  | CannotLock string
  | NotFound string
  | BuiltinException string

fun isinstance_Arcor2Exception :: "exn \<Rightarrow> bool" where
  "isinstance_Arcor2Exception (BuiltinException _) = False"
| "isinstance_Arcor2Exception _ = True"

fun isinstance_CannotLock :: "exn \<Rightarrow> bool" where
  "isinstance_CannotLock (CannotLock _) = True"
| "isinstance_CannotLock _ = False"

text \<open>
  Modelled from the spec: the lock record and the lock table of \<^verbatim>\<open>glob.LOCK\<close>, whose class
  is not among the sources. A record has a mode, a set of holders and an optional back-reference
  \<open>tree_root\<close> (the root of the tree lock it was taken under, and by whom); an id without a
  record is unlocked.
\<close>

datatype lock_mode = Read | Write

record lock_record =
  mode :: lock_mode
  holders :: "owner_id set"
  tree_root :: "(object_id \<times> owner_id) option"

type_synonym lock_table = "object_id \<rightharpoonup> lock_record"

text \<open>
  Modelled from the spec: the invariants of the lock table. A write record has exactly one
  holder, a read record at least one.
\<close>

definition wf_table :: "lock_table \<Rightarrow> bool" where
  "wf_table t =
     (\<forall>i r. t i = Some r \<longrightarrow> holders r \<noteq> {} \<and> (mode r = Write \<longrightarrow> (\<exists>owner. holders r = {owner})))"

text \<open>
  The calls made on the lock object and the waits of the retry are logged, so that the number
  of attempts and of waits can be stated. The world is the lock table together with that log.
\<close>

datatype event =
    Attempt lock_mode "object_id list" owner_id
  | Wait real
  | Release lock_mode "object_id list" owner_id

record world =
  table :: lock_table
  trace :: "event list"

text \<open>
  What the wrappers read from \<^verbatim>\<open>glob.LOCK\<close> and from the graph provider:
  \<^verbatim>\<open>_lock_retries\<close>, \<^verbatim>\<open>_retry_wait\<close>, the message \<^verbatim>\<open>ErrMessages.LOCK_FAIL\<close>, whether an object
  exists, and the tree resolver (the object and all its descendants). Their definitions are
  not among the sources, so they are parameters.
\<close>

record lock_config =
  lock_retries :: nat
  retry_wait :: real
  LOCK_FAIL :: string
  exists_obj :: "object_id \<Rightarrow> bool"
  resolve :: "object_id \<Rightarrow> object_id list"

text \<open>
  Modelled from the spec: compatibility of a requested mode with the record of an id
  (section 4.1). Read goes with no lock and with a read lock; Write goes with no lock and with
  a lock whose sole holder is the requesting owner.
\<close>

definition compatible :: "lock_table \<Rightarrow> owner_id \<Rightarrow> lock_mode \<Rightarrow> object_id \<Rightarrow> bool" where
  "compatible t owner m i =
     (case t i of
        None \<Rightarrow> True
      | Some r \<Rightarrow> (case m of Read \<Rightarrow> mode r = Read | Write \<Rightarrow> holders r = {owner}))"

text \<open>
  Modelled from the spec: applying one hold. A new record is created, or the owner joins the
  holders of the existing one (which takes the requested mode: the self-upgrade).
\<close>

definition hold ::
  "(object_id \<times> owner_id) option \<Rightarrow> owner_id \<Rightarrow> lock_mode \<Rightarrow> object_id \<Rightarrow> lock_table \<Rightarrow> lock_table" where
  "hold tag owner m i t =
     t(i \<mapsto> (case t i of
                None \<Rightarrow> \<lparr>mode = m, holders = {owner}, tree_root = tag\<rparr>
              | Some r \<Rightarrow> r\<lparr>mode := m, holders := insert owner (holders r),
                           tree_root := (case tag of None \<Rightarrow> tree_root r | Some x \<Rightarrow> Some x)\<rparr>))"

text \<open>
  Modelled from the spec: \<open>try_acquire\<close> of the lock table (section 4.1). Every id is checked
  against the table as it is; all holds are applied if and only if all ids are compatible, and
  a failure leaves the table as it was.
\<close>

definition try_acquire ::
  "(object_id \<times> owner_id) option \<Rightarrow> object_id list \<Rightarrow> owner_id \<Rightarrow> lock_mode \<Rightarrow> lock_table
     \<Rightarrow> bool \<times> lock_table" where
  "try_acquire tag ids owner m t =
     (if list_all (compatible t owner m) ids
      then (True, fold (hold tag owner m) ids t)
      else (False, t))"

text \<open>
  Modelled from the spec: \<open>release\<close> of the lock table (section 4.1). The owner leaves the
  holders of each id whose record has the matching mode; a record without holders is deleted;
  releasing what is not held changes nothing.
\<close>

definition release_one :: "owner_id \<Rightarrow> lock_mode \<Rightarrow> object_id \<Rightarrow> lock_table \<Rightarrow> lock_table" where
  "release_one owner m i t =
     (case t i of
        None \<Rightarrow> t
      | Some r \<Rightarrow>
          if mode r = m \<and> owner \<in> holders r
          then (if holders r - {owner} = {} then t(i := None)
                else t(i \<mapsto> r\<lparr>holders := holders r - {owner}\<rparr>))
          else t)"

definition release :: "object_id list \<Rightarrow> owner_id \<Rightarrow> lock_mode \<Rightarrow> lock_table \<Rightarrow> lock_table" where
  "release ids owner m t = fold (release_one owner m) ids t"

text \<open>
  Modelled from the spec: \<open>is_locked(id, owner, mode, include_tree)\<close> (section 4.1), true if
  the owner holds the mode on the id directly or, when \<open>include_tree\<close>, via a tree lock
  covering the id. A hold is via a tree lock when the record's \<open>tree_root\<close> names the owner.
\<close>

definition holds :: "lock_table \<Rightarrow> object_id \<Rightarrow> owner_id \<Rightarrow> lock_mode \<Rightarrow> bool" where
  "holds t i owner m = (case t i of None \<Rightarrow> False | Some r \<Rightarrow> mode r = m \<and> owner \<in> holders r)"

definition holds_any :: "lock_table \<Rightarrow> object_id \<Rightarrow> owner_id \<Rightarrow> bool" where
  "holds_any t i owner = (case t i of None \<Rightarrow> False | Some r \<Rightarrow> owner \<in> holders r)"

definition via_tree :: "lock_table \<Rightarrow> object_id \<Rightarrow> owner_id \<Rightarrow> bool" where
  "via_tree t i owner =
     (case t i of
        None \<Rightarrow> False
      | Some r \<Rightarrow> (case tree_root r of None \<Rightarrow> False | Some (rt, by_whom) \<Rightarrow> by_whom = owner))"

definition holds_directly :: "lock_table \<Rightarrow> object_id \<Rightarrow> owner_id \<Rightarrow> lock_mode \<Rightarrow> bool" where
  "holds_directly t i owner m = (holds t i owner m \<and> \<not> via_tree t i owner)"

definition covered_by_tree :: "lock_table \<Rightarrow> object_id \<Rightarrow> owner_id \<Rightarrow> lock_mode \<Rightarrow> bool" where
  "covered_by_tree t i owner m = (holds t i owner m \<and> via_tree t i owner)"

definition is_locked :: "lock_table \<Rightarrow> object_id \<Rightarrow> owner_id \<Rightarrow> lock_mode \<Rightarrow> bool \<Rightarrow> bool" where
  "is_locked t i owner m include_tree =
     (holds_directly t i owner m \<or> (include_tree \<and> covered_by_tree t i owner m))"

section \<open>The lock object\<close>

text \<open>
  Modelled from the spec: the acquisition engine behind \<^verbatim>\<open>glob.LOCK.write_lock\<close> and
  \<^verbatim>\<open>glob.LOCK.read_lock\<close> (section 4.3), for a call without the tree flag, as the wrappers
  make it. Contention returns \<open>False\<close>; ids that resolve to no existing object, or a member
  that does not exist, raise the not-found condition.
\<close>

definition acquire ::
  "lock_config \<Rightarrow> obj_ids \<Rightarrow> owner_id \<Rightarrow> lock_mode \<Rightarrow> world \<Rightarrow> (exn + bool) \<times> world" where
  "acquire cfg obj_ids owner m w =
     (let ids = ids_of obj_ids;
          w' = w\<lparr>trace := trace w @ [Attempt m ids owner]\<rparr>
      in if ids = [] \<or> \<not> list_all (exists_obj cfg) ids then (Inl (NotFound ''not found''), w')
         else (case try_acquire None ids owner m (table w) of
                 (ok, t') \<Rightarrow> (Inr ok, w'\<lparr>table := t'\<rparr>)))"

text \<open>
  Modelled from the spec: the same engine for a tree lock (sections 4.2 and 4.3): the root is
  resolved to the ids of its subtree, which are locked all or none, each record noting the
  root and the owner.
\<close>

definition acquire_tree ::
  "lock_config \<Rightarrow> object_id \<Rightarrow> owner_id \<Rightarrow> lock_mode \<Rightarrow> world \<Rightarrow> (exn + bool) \<times> world" where
  "acquire_tree cfg rt owner m w =
     (let ids = resolve cfg rt;
          w' = w\<lparr>trace := trace w @ [Attempt m ids owner]\<rparr>
      in if ids = [] then (Inl (NotFound ''not found''), w')
         else (case try_acquire (Some (rt, owner)) ids owner m (table w) of
                 (ok, t') \<Rightarrow> (Inr ok, w'\<lparr>table := t'\<rparr>)))"

definition write_lock :: "lock_config \<Rightarrow> obj_ids \<Rightarrow> owner_id \<Rightarrow> world \<Rightarrow> (exn + bool) \<times> world" where
  "write_lock cfg obj_ids owner w = acquire cfg obj_ids owner Write w"

definition read_lock :: "lock_config \<Rightarrow> obj_ids \<Rightarrow> owner_id \<Rightarrow> world \<Rightarrow> (exn + bool) \<times> world" where
  "read_lock cfg obj_ids owner w = acquire cfg obj_ids owner Read w"

text \<open>
  Modelled from the spec: \<^verbatim>\<open>glob.LOCK.write_unlock\<close> and \<^verbatim>\<open>glob.LOCK.read_unlock\<close>, the
  table's \<open>release\<close> in the matching mode. A release never fails.
\<close>

definition unlock :: "lock_mode \<Rightarrow> obj_ids \<Rightarrow> owner_id \<Rightarrow> world \<Rightarrow> world" where
  "unlock m obj_ids owner w =
     w\<lparr>table := release (ids_of obj_ids) owner m (table w),
       trace := trace w @ [Release m (ids_of obj_ids) owner]\<rparr>"

definition write_unlock :: "obj_ids \<Rightarrow> owner_id \<Rightarrow> world \<Rightarrow> world" where
  "write_unlock obj_ids owner w = unlock Write obj_ids owner w"

definition read_unlock :: "obj_ids \<Rightarrow> owner_id \<Rightarrow> world \<Rightarrow> world" where
  "read_unlock obj_ids owner w = unlock Read obj_ids owner w"

text \<open>
  Modelled from the spec: \<^verbatim>\<open>glob.LOCK.is_write_locked\<close> and \<^verbatim>\<open>glob.LOCK.is_read_locked\<close>,
  the table's \<open>is_locked\<close> in the given mode. The tree flag is their optional third
  parameter, \<open>False\<close> when a call leaves it out.
\<close>

definition is_write_locked :: "world \<Rightarrow> object_id \<Rightarrow> owner_id \<Rightarrow> bool \<Rightarrow> bool" where
  "is_write_locked w obj_id owner check_tree = is_locked (table w) obj_id owner Write check_tree"

definition is_read_locked :: "world \<Rightarrow> object_id \<Rightarrow> owner_id \<Rightarrow> bool \<Rightarrow> bool" where
  "is_read_locked w obj_id owner check_tree = is_locked (table w) obj_id owner Read check_tree"

section \<open>Bounded retry\<close>

definition sleep :: "real \<Rightarrow> world \<Rightarrow> world" where
  "sleep delay w = w\<lparr>trace := trace w @ [Wait delay]\<rparr>"

text \<open>
  Modelled from the spec: the decorator \<^verbatim>\<open>retry(exc, tries, delay)\<close> of
  \<^verbatim>\<open>arcor2_arserver.decorators\<close> (section 4.4): attempt; when the attempt raises \<open>exc\<close> and
  attempts remain, wait the delay and attempt again; when they are exhausted the exception
  goes to the caller. Any other exception goes to the caller at once.
\<close>

function retry ::
  "(exn \<Rightarrow> bool) \<Rightarrow> nat \<Rightarrow> real \<Rightarrow> (world \<Rightarrow> (exn + 'a) \<times> world) \<Rightarrow> world \<Rightarrow> (exn + 'a) \<times> world" where
  "retry exc tries delay f w =
     (case f w of
        (Inr v, w') \<Rightarrow> (Inr v, w')
      | (Inl e, w') \<Rightarrow>
          if exc e \<and> 1 < tries then retry exc (tries - 1) delay f (sleep delay w')
          else (Inl e, w'))"
  by pat_completeness auto
termination
  by (relation "measure (\<lambda>(exc, tries, delay, f, w). tries)") auto

declare retry.simps [simp del]

text \<open>The trace of \<open>n\<close> failed attempts \<open>a\<close> with a wait of \<open>d\<close> between them.\<close>

definition attempts_trace :: "nat \<Rightarrow> event \<Rightarrow> real \<Rightarrow> event list" where
  "attempts_trace n a d = concat (replicate (n - 1) [a, Wait d]) @ [a]"

section \<open>Scoped acquisition: \<open>ctx_write_lock\<close> and \<open>ctx_read_lock\<close>\<close>

text \<open>The inner function \<open>lock\<close> of each wrapper, before and after decoration.\<close>

definition write_lock_or_raise :: "lock_config \<Rightarrow> obj_ids \<Rightarrow> owner_id \<Rightarrow> world \<Rightarrow> (exn + unit) \<times> world" where
  "write_lock_or_raise cfg obj_ids owner w =
     (case write_lock cfg obj_ids owner w of
        (Inl e, w') \<Rightarrow> (Inl e, w')
      | (Inr ok, w') \<Rightarrow> if \<not> ok then (Inl (CannotLock (LOCK_FAIL cfg)), w') else (Inr (), w'))"

definition read_lock_or_raise :: "lock_config \<Rightarrow> obj_ids \<Rightarrow> owner_id \<Rightarrow> world \<Rightarrow> (exn + unit) \<times> world" where
  "read_lock_or_raise cfg obj_ids owner w =
     (case read_lock cfg obj_ids owner w of
        (Inl e, w') \<Rightarrow> (Inl e, w')
      | (Inr ok, w') \<Rightarrow> if \<not> ok then (Inl (CannotLock (LOCK_FAIL cfg)), w') else (Inr (), w'))"

definition write_lock_retrying :: "lock_config \<Rightarrow> obj_ids \<Rightarrow> owner_id \<Rightarrow> world \<Rightarrow> (exn + unit) \<times> world" where
  "write_lock_retrying cfg obj_ids owner =
     retry isinstance_CannotLock (lock_retries cfg) (retry_wait cfg) (write_lock_or_raise cfg obj_ids owner)"

definition read_lock_retrying :: "lock_config \<Rightarrow> obj_ids \<Rightarrow> owner_id \<Rightarrow> world \<Rightarrow> (exn + unit) \<times> world" where
  "read_lock_retrying cfg obj_ids owner =
     retry isinstance_CannotLock (lock_retries cfg) (retry_wait cfg) (read_lock_or_raise cfg obj_ids owner)"

text \<open>
  The protected block of the \<^verbatim>\<open>async with\<close>: it runs on the world and either completes
  (\<open>None\<close>) or raises (\<open>Some e\<close>).
\<close>

type_synonym block = "world \<Rightarrow> exn option \<times> world"

text \<open>
  The wrappers. A failed \<open>lock()\<close> raises before the \<^verbatim>\<open>try\<close>, so the block does not run and
  nothing is released. Otherwise the block runs at the \<^verbatim>\<open>yield\<close>; the \<^verbatim>\<open>except\<close> clause
  handles an \<open>Arcor2Exception\<close> only and re-raises it; the \<^verbatim>\<open>finally\<close> clause runs on
  every exit.
\<close>

definition ctx_write_lock ::
  "lock_config \<Rightarrow> obj_ids \<Rightarrow> owner_id \<Rightarrow> bool \<Rightarrow> bool \<Rightarrow> block \<Rightarrow> world \<Rightarrow> exn option \<times> world" where
  "ctx_write_lock cfg obj_ids owner auto_unlock dry_run body w =
     (case write_lock_retrying cfg obj_ids owner w of
        (Inl e, w1) \<Rightarrow> (Some e, w1)
      | (Inr _, w1) \<Rightarrow>
          (case body w1 of
             (Some e, w2) \<Rightarrow>
               (let w3 = (if isinstance_Arcor2Exception e \<and> \<not> dry_run \<and> \<not> auto_unlock
                          then write_unlock obj_ids owner w2 else w2);
                    w4 = (if dry_run \<or> auto_unlock then write_unlock obj_ids owner w3 else w3)
                in (Some e, w4))
           | (None, w2) \<Rightarrow>
               (let w4 = (if dry_run \<or> auto_unlock then write_unlock obj_ids owner w2 else w2)
                in (None, w4))))"

definition ctx_read_lock ::
  "lock_config \<Rightarrow> obj_ids \<Rightarrow> owner_id \<Rightarrow> bool \<Rightarrow> bool \<Rightarrow> block \<Rightarrow> world \<Rightarrow> exn option \<times> world" where
  "ctx_read_lock cfg obj_ids owner auto_unlock dry_run body w =
     (case read_lock_retrying cfg obj_ids owner w of
        (Inl e, w1) \<Rightarrow> (Some e, w1)
      | (Inr _, w1) \<Rightarrow>
          (case body w1 of
             (Some e, w2) \<Rightarrow>
               (let w3 = (if isinstance_Arcor2Exception e \<and> \<not> dry_run \<and> \<not> auto_unlock
                          then read_unlock obj_ids owner w2 else w2);
                    w4 = (if dry_run \<or> auto_unlock then read_unlock obj_ids owner w3 else w3)
                in (Some e, w4))
           | (None, w2) \<Rightarrow>
               (let w4 = (if dry_run \<or> auto_unlock then read_unlock obj_ids owner w2 else w2)
                in (None, w4))))"

section \<open>Query helpers\<close>

text \<open>
  \<open>ensure_write_locked\<close> passes \<open>locked_tree\<close> on; \<open>ensure_read_locked\<close> calls
  \<^verbatim>\<open>is_read_locked(obj_id, owner)\<close> with two arguments, so the tree flag of the check is
  \<open>False\<close> whatever \<open>locked_tree\<close> is. Both raise with the same message.
\<close>

definition ensure_write_locked :: "world \<Rightarrow> object_id \<Rightarrow> owner_id \<Rightarrow> bool \<Rightarrow> exn option \<times> world" where
  "ensure_write_locked w obj_id owner locked_tree =
     (if \<not> is_write_locked w obj_id owner locked_tree
      then (Some (LockingException ''Object is not write locked.''), w)
      else (None, w))"

definition ensure_read_locked :: "world \<Rightarrow> object_id \<Rightarrow> owner_id \<Rightarrow> bool \<Rightarrow> exn option \<times> world" where
  "ensure_read_locked w obj_id owner locked_tree =
     (if \<not> is_read_locked w obj_id owner False
      then (Some (LockingException ''Object is not write locked.''), w)
      else (None, w))"

text \<open>The set comprehension of \<open>get_unlocked_objects\<close>, over the ids as a list.\<close>

definition get_unlocked_objects :: "world \<Rightarrow> obj_ids \<Rightarrow> owner_id \<Rightarrow> object_id set" where
  "get_unlocked_objects w obj_ids owner =
     set (filter (\<lambda>obj_id. \<not> is_write_locked w obj_id owner False) (ids_of obj_ids))"

section \<open>The common form of the two wrappers\<close>

text \<open>
  \<open>ctx_write_lock\<close> and \<open>ctx_read_lock\<close> differ in the mode of the lock only. Their common
  form, with the mode as a parameter, carries the proofs; \<open>released\<close> says on which exits
  the wrapper calls the unlock.
\<close>

definition lock_or_raise :: "lock_config \<Rightarrow> lock_mode \<Rightarrow> obj_ids \<Rightarrow> owner_id \<Rightarrow> world \<Rightarrow> (exn + unit) \<times> world" where
  "lock_or_raise cfg m obj_ids owner w =
     (case acquire cfg obj_ids owner m w of
        (Inl e, w') \<Rightarrow> (Inl e, w')
      | (Inr ok, w') \<Rightarrow> if \<not> ok then (Inl (CannotLock (LOCK_FAIL cfg)), w') else (Inr (), w'))"

definition lock_retrying :: "lock_config \<Rightarrow> lock_mode \<Rightarrow> obj_ids \<Rightarrow> owner_id \<Rightarrow> world \<Rightarrow> (exn + unit) \<times> world" where
  "lock_retrying cfg m obj_ids owner =
     retry isinstance_CannotLock (lock_retries cfg) (retry_wait cfg) (lock_or_raise cfg m obj_ids owner)"

definition ctx_lock ::
  "lock_config \<Rightarrow> lock_mode \<Rightarrow> obj_ids \<Rightarrow> owner_id \<Rightarrow> bool \<Rightarrow> bool \<Rightarrow> block \<Rightarrow> world \<Rightarrow> exn option \<times> world" where
  "ctx_lock cfg m obj_ids owner auto_unlock dry_run body w =
     (case lock_retrying cfg m obj_ids owner w of
        (Inl e, w1) \<Rightarrow> (Some e, w1)
      | (Inr _, w1) \<Rightarrow>
          (case body w1 of
             (Some e, w2) \<Rightarrow>
               (let w3 = (if isinstance_Arcor2Exception e \<and> \<not> dry_run \<and> \<not> auto_unlock
                          then unlock m obj_ids owner w2 else w2);
                    w4 = (if dry_run \<or> auto_unlock then unlock m obj_ids owner w3 else w3)
                in (Some e, w4))
           | (None, w2) \<Rightarrow>
               (let w4 = (if dry_run \<or> auto_unlock then unlock m obj_ids owner w2 else w2)
                in (None, w4))))"

definition released :: "bool \<Rightarrow> bool \<Rightarrow> exn option \<Rightarrow> bool" where
  "released auto_unlock dry_run r =
     (dry_run \<or> auto_unlock \<or> (case r of None \<Rightarrow> False | Some e \<Rightarrow> isinstance_Arcor2Exception e))"

section \<open>Concrete inputs\<close>

text \<open>
  A configuration with three attempts and half a second between them, in a graph where every
  object exists and \<open>scene1\<close> has the children \<open>obj1\<close> and \<open>obj2\<close>; the empty world; three
  blocks (one completes, one raises an \<open>Arcor2Exception\<close>, one raises \<open>KeyError\<close>); and the
  worlds reached when \<open>alice\<close> locks \<open>A\<close>, when she tree-locks \<open>scene1\<close>, and when \<open>bob\<close>
  holds \<open>B\<close> and \<open>alice\<close> holds \<open>C\<close>.
\<close>

definition cfg0 :: lock_config where
  "cfg0 = \<lparr>lock_retries = 3, retry_wait = 1 / 2, LOCK_FAIL = ''Locking failed.'',
           exists_obj = (\<lambda>_. True),
           resolve = (\<lambda>i. if i = ''scene1'' then [''scene1'', ''obj1'', ''obj2''] else [i])\<rparr>"

definition w0 :: world where
  "w0 = \<lparr>table = Map.empty, trace = []\<rparr>"

definition completes :: block where
  "completes w = (None, w)"

definition raises_arcor2 :: block where
  "raises_arcor2 w = (Some (Arcor2Exception ''failed''), w)"

definition raises_builtin :: block where
  "raises_builtin w = (Some (BuiltinException ''KeyError''), w)"

definition w_alice_write :: world where
  "w_alice_write = \<lparr>table = [''A'' \<mapsto> \<lparr>mode = Write, holders = {''alice''}, tree_root = None\<rparr>],
                    trace = [Attempt Write [''A''] ''alice'']\<rparr>"

definition w_alice_read :: world where
  "w_alice_read = \<lparr>table = [''A'' \<mapsto> \<lparr>mode = Read, holders = {''alice''}, tree_root = None\<rparr>],
                   trace = [Attempt Read [''A''] ''alice'']\<rparr>"

definition tree_record :: "lock_mode \<Rightarrow> lock_record" where
  "tree_record m = \<lparr>mode = m, holders = {''alice''}, tree_root = Some (''scene1'', ''alice'')\<rparr>"

definition w_tree_write :: world where
  "w_tree_write =
     \<lparr>table = [''scene1'' \<mapsto> tree_record Write, ''obj1'' \<mapsto> tree_record Write,
               ''obj2'' \<mapsto> tree_record Write],
      trace = [Attempt Write [''scene1'', ''obj1'', ''obj2''] ''alice'']\<rparr>"

definition w_tree_read :: world where
  "w_tree_read =
     \<lparr>table = [''scene1'' \<mapsto> tree_record Read, ''obj1'' \<mapsto> tree_record Read,
               ''obj2'' \<mapsto> tree_record Read],
      trace = [Attempt Read [''scene1'', ''obj1'', ''obj2''] ''alice'']\<rparr>"


section \<open>Properties of \<open>make_name_unique\<close>\<close>

lemma make_name_unique_loop_fresh: "make_name_unique_loop orig_name names name cnt |\<notin>| names"
  by (induction orig_name names name cnt rule: make_name_unique_loop.induct)
     (subst make_name_unique_loop.simps, simp)

text \<open>
  C10. For every original name and every finite set of existing names, \<open>make_name_unique\<close>
  returns (the function is total: its loop terminates by the variant \<open>pending\<close>) a name that
  is not in the set, and it returns the original name itself when that is not in the set.
\<close>

theorem make_name_unique_fresh:
  "make_name_unique orig_name names |\<notin>| names
   \<and> (orig_name |\<notin>| names \<longrightarrow> make_name_unique orig_name names = orig_name)"
  by (simp add: make_name_unique_def make_name_unique_loop_fresh)
     (simp add: make_name_unique_loop.simps)

theorem make_name_unique_fresh_witness:
  "make_name_unique ''box'' {|''box'', ''box_1''|} |\<notin>| {|''box'', ''box_1''|}
   \<and> ''cube'' |\<notin>| {|''box'', ''box_1''|}
   \<and> make_name_unique ''cube'' {|''box'', ''box_1''|} = ''cube''
   \<and> make_name_unique ''box'' {|''box'', ''box_1''|} = ''box_2''"
  using make_name_unique_fresh [of "''box''" "{|''box'', ''box_1''|}"]
    make_name_unique_fresh [of "''cube''" "{|''box'', ''box_1''|}"]
  by (simp add: make_name_unique_def make_name_unique_loop.simps numbered_def str_nat.simps
      digit_char_def)

section \<open>The lock table: acquisition and release, id by id\<close>

lemma hold_other: "j \<noteq> i \<Longrightarrow> hold tag owner m i t j = t j"
  by (simp add: hold_def)

lemma hold_idem: "hold tag owner m i (hold tag owner m i t) i = hold tag owner m i t i"
  by (simp add: hold_def split: option.splits)

lemma hold_depends: "t i = t' i \<Longrightarrow> hold tag owner m i t i = hold tag owner m i t' i"
  by (simp add: hold_def)

lemma fold_hold_apply:
  "fold (hold tag owner m) ids t j = (if j \<in> set ids then hold tag owner m j t j else t j)"
proof (induction ids arbitrary: t)
  case Nil
  show ?case by simp
next
  case (Cons x xs)
  show ?case
  proof (cases "x = j")
    case True
    then show ?thesis
      using hold_idem [of tag owner m j t] by (simp add: Cons.IH)
  next
    case False
    then have "hold tag owner m x t j = t j" by (simp add: hold_other)
    then show ?thesis
      using False hold_depends [of "hold tag owner m x t" j t tag owner m] by (simp add: Cons.IH)
  qed
qed

lemma release_one_other: "j \<noteq> i \<Longrightarrow> release_one owner m i t j = t j"
  by (simp add: release_one_def split: option.splits)

lemma release_one_idem:
  "release_one owner m i (release_one owner m i t) i = release_one owner m i t i"
  by (simp add: release_one_def split: option.splits)

lemma release_one_depends: "t i = t' i \<Longrightarrow> release_one owner m i t i = release_one owner m i t' i"
  by (simp add: release_one_def split: option.splits)

lemma release_apply:
  "release ids owner m t j = (if j \<in> set ids then release_one owner m j t j else t j)"
  unfolding release_def
proof (induction ids arbitrary: t)
  case Nil
  show ?case by simp
next
  case (Cons x xs)
  show ?case
  proof (cases "x = j")
    case True
    then show ?thesis
      using release_one_idem [of owner m j t] by (simp add: Cons.IH)
  next
    case False
    then have "release_one owner m x t j = t j" by (simp add: release_one_other)
    then show ?thesis
      using False release_one_depends [of "release_one owner m x t" j t owner m]
      by (simp add: Cons.IH)
  qed
qed

lemma release_one_not_member:
  "holds t i owner m \<Longrightarrow> \<not> holds_any (release_one owner m i t) i owner"
  by (auto simp: release_one_def holds_def holds_any_def split: option.splits)

lemma release_one_not_holds: "\<not> holds (release_one owner m i t) i owner m"
  by (auto simp: release_one_def holds_def split: option.splits)

lemma holds_depends: "t i = t' i \<Longrightarrow> holds t i owner m = holds t' i owner m"
  by (simp add: holds_def)

lemma holds_any_depends: "t i = t' i \<Longrightarrow> holds_any t i owner = holds_any t' i owner"
  by (simp add: holds_any_def)

lemma release_not_holds: "i \<in> set ids \<Longrightarrow> \<not> holds (release ids owner m t) i owner m"
  using release_one_not_holds [of owner m i t]
    holds_depends [of "release ids owner m t" i "release_one owner m i t" owner m]
  by (simp add: release_apply)

lemma release_not_member:
  "i \<in> set ids \<Longrightarrow> holds t i owner m \<Longrightarrow> \<not> holds_any (release ids owner m t) i owner"
  using release_one_not_member [of t i owner m]
    holds_any_depends [of "release ids owner m t" i "release_one owner m i t" owner]
  by (simp add: release_apply)

lemma hold_holds: "holds (hold tag owner m i t) i owner m"
  by (simp add: hold_def holds_def split: option.splits)

lemma fold_hold_holds: "i \<in> set ids \<Longrightarrow> holds (fold (hold tag owner m) ids t) i owner m"
  using hold_holds [of tag owner m i t]
    holds_depends [of "fold (hold tag owner m) ids t" i "hold tag owner m i t" owner m]
  by (simp add: fold_hold_apply)

lemma release_hold_restores:
  assumes wf: "wf_table t"
    and compat: "compatible t owner m i"
    and free: "\<not> holds_any t i owner"
  shows "release_one owner m i (hold None owner m i t) i = t i"
proof (cases "t i")
  case None
  then show ?thesis by (simp add: release_one_def hold_def)
next
  case (Some r)
  with free have notin: "owner \<notin> holders r" by (simp add: holds_any_def)
  from wf Some have ne: "holders r \<noteq> {}" by (auto simp: wf_table_def)
  from compat Some notin have md: "mode r = m"
    by (cases m) (auto simp: compatible_def)
  from notin have "insert owner (holders r) - {owner} = holders r" by auto
  with Some md ne show ?thesis
    by (simp add: release_one_def hold_def)
qed

lemma release_fold_hold_restores:
  assumes wf: "wf_table t"
    and compat: "list_all (compatible t owner m) ids"
    and free: "\<forall>i\<in>set ids. \<not> holds_any t i owner"
  shows "release ids owner m (fold (hold None owner m) ids t) = t"
proof (rule ext)
  fix j
  show "release ids owner m (fold (hold None owner m) ids t) j = t j"
  proof (cases "j \<in> set ids")
    case False
    then show ?thesis by (simp add: release_apply fold_hold_apply)
  next
    case True
    with compat have c: "compatible t owner m j" by (simp add: list_all_iff)
    from True free have f: "\<not> holds_any t j owner" by simp
    have "fold (hold None owner m) ids t j = hold None owner m j t j"
      using True by (simp add: fold_hold_apply)
    then have "release_one owner m j (fold (hold None owner m) ids t) j
        = release_one owner m j (hold None owner m j t) j"
      by (rule release_one_depends)
    with True show ?thesis
      using release_hold_restores [OF wf c f] by (simp add: release_apply)
  qed
qed

section \<open>The retrying acquisition\<close>

lemma write_lock_or_raise_eq: "write_lock_or_raise cfg obj_ids owner = lock_or_raise cfg Write obj_ids owner"
  by (rule ext) (simp add: write_lock_or_raise_def lock_or_raise_def write_lock_def)

lemma read_lock_or_raise_eq: "read_lock_or_raise cfg obj_ids owner = lock_or_raise cfg Read obj_ids owner"
  by (rule ext) (simp add: read_lock_or_raise_def lock_or_raise_def read_lock_def)

lemma write_lock_retrying_eq: "write_lock_retrying cfg obj_ids owner = lock_retrying cfg Write obj_ids owner"
  by (simp add: write_lock_retrying_def lock_retrying_def write_lock_or_raise_eq)

lemma read_lock_retrying_eq: "read_lock_retrying cfg obj_ids owner = lock_retrying cfg Read obj_ids owner"
  by (simp add: read_lock_retrying_def lock_retrying_def read_lock_or_raise_eq)

lemma lock_or_raise_Inr:
  assumes "lock_or_raise cfg m obj_ids owner w = (Inr u, w')"
  shows "list_all (compatible (table w) owner m) (ids_of obj_ids)
       \<and> table w' = fold (hold None owner m) (ids_of obj_ids) (table w)"
  using assms
  by (auto simp: lock_or_raise_def acquire_def try_acquire_def Let_def split: if_splits)

lemma lock_or_raise_Inl:
  assumes "lock_or_raise cfg m obj_ids owner w = (Inl e, w')"
  shows "table w' = table w"
  using assms
  by (auto simp: lock_or_raise_def acquire_def try_acquire_def Let_def split: if_splits)

lemma retry_lock_success:
  "retry exc n d (lock_or_raise cfg m obj_ids owner) w = (Inr u, w1) \<Longrightarrow>
   list_all (compatible (table w) owner m) (ids_of obj_ids)
   \<and> table w1 = fold (hold None owner m) (ids_of obj_ids) (table w)"
proof (induction exc n d "lock_or_raise cfg m obj_ids owner" w rule: retry.induct)
  case (1 exc tries delay w)
  obtain res w' where fw: "lock_or_raise cfg m obj_ids owner w = (res, w')"
    by (cases "lock_or_raise cfg m obj_ids owner w")
  show ?case
  proof (cases res)
    case (Inr v)
    with fw "1.prems" have "w1 = w'"
      by (simp add: retry.simps [of exc tries delay _ w])
    with fw Inr show ?thesis
      using lock_or_raise_Inr [of cfg m obj_ids owner w v w'] by simp
  next
    case (Inl e)
    with fw have tbl: "table w' = table w"
      using lock_or_raise_Inl [of cfg m obj_ids owner w e w'] by simp
    from Inl fw "1.prems" have go: "exc e \<and> 1 < tries"
      and rec: "retry exc (tries - 1) delay (lock_or_raise cfg m obj_ids owner) (sleep delay w') = (Inr u, w1)"
      by (auto simp: retry.simps [of exc tries delay _ w] split: if_splits)
    from "1.hyps" [OF fw [symmetric] Inl go rec] tbl show ?thesis
      by (simp add: sleep_def)
  qed
qed

lemma lock_retrying_success:
  "lock_retrying cfg m obj_ids owner w = (Inr u, w1) \<Longrightarrow>
   list_all (compatible (table w) owner m) (ids_of obj_ids)
   \<and> table w1 = fold (hold None owner m) (ids_of obj_ids) (table w)"
  unfolding lock_retrying_def by (rule retry_lock_success)

lemma lock_retrying_holds:
  "lock_retrying cfg m obj_ids owner w = (Inr u, w1) \<Longrightarrow> i \<in> set (ids_of obj_ids) \<Longrightarrow>
   holds (table w1) i owner m"
  using lock_retrying_success [of cfg m obj_ids owner w u w1]
  by (simp add: fold_hold_holds)

lemma attempts_trace_Suc: "0 < k \<Longrightarrow> attempts_trace (Suc k) a d = [a, Wait d] @ attempts_trace k a d"
  by (cases k) (simp_all add: attempts_trace_def)

lemma lock_or_raise_contended:
  assumes "fst (acquire cfg obj_ids owner m w) = Inr False"
  shows "lock_or_raise cfg m obj_ids owner w
       = (Inl (CannotLock (LOCK_FAIL cfg)), w\<lparr>trace := trace w @ [Attempt m (ids_of obj_ids) owner]\<rparr>)"
  using assms
  by (auto simp: lock_or_raise_def acquire_def try_acquire_def Let_def split: if_splits)

lemma acquire_contended_table:
  "fst (acquire cfg obj_ids owner m w) = Inr False \<Longrightarrow> table w' = table w \<Longrightarrow>
   fst (acquire cfg obj_ids owner m w') = Inr False"
  by (auto simp: acquire_def try_acquire_def Let_def split: if_splits)

lemma retry_lock_exhausted:
  "0 < n \<Longrightarrow> fst (acquire cfg obj_ids owner m w) = Inr False \<Longrightarrow>
   retry isinstance_CannotLock n d (lock_or_raise cfg m obj_ids owner) w
   = (Inl (CannotLock (LOCK_FAIL cfg)),
      w\<lparr>trace := trace w @ attempts_trace n (Attempt m (ids_of obj_ids) owner) d\<rparr>)"
proof (induction n arbitrary: w)
  case 0
  then show ?case by simp
next
  case (Suc k)
  let ?a = "Attempt m (ids_of obj_ids) owner"
  let ?w' = "w\<lparr>trace := trace w @ [?a]\<rparr>"
  have fw: "lock_or_raise cfg m obj_ids owner w = (Inl (CannotLock (LOCK_FAIL cfg)), ?w')"
    using Suc.prems by (simp add: lock_or_raise_contended)
  show ?case
  proof (cases "k = 0")
    case True
    with fw show ?thesis
      by (subst retry.simps) (simp add: attempts_trace_def)
  next
    case False
    then have k: "0 < k" by simp
    have c: "fst (acquire cfg obj_ids owner m (sleep d ?w')) = Inr False"
      by (rule acquire_contended_table [OF Suc.prems(2)]) (simp add: sleep_def)
    from Suc.IH [OF k c] fw k show ?thesis
      by (subst retry.simps) (simp add: attempts_trace_Suc sleep_def)
  qed
qed

section \<open>The wrappers\<close>

lemma write_unlock_eq: "write_unlock = unlock Write"
  by (intro ext) (simp add: write_unlock_def)

lemma read_unlock_eq: "read_unlock = unlock Read"
  by (intro ext) (simp add: read_unlock_def)

lemma ctx_write_lock_eq:
  "ctx_write_lock cfg obj_ids owner auto_unlock dry_run body w
   = ctx_lock cfg Write obj_ids owner auto_unlock dry_run body w"
  unfolding ctx_write_lock_def ctx_lock_def write_lock_retrying_eq write_unlock_eq ..

lemma ctx_read_lock_eq:
  "ctx_read_lock cfg obj_ids owner auto_unlock dry_run body w
   = ctx_lock cfg Read obj_ids owner auto_unlock dry_run body w"
  unfolding ctx_read_lock_def ctx_lock_def read_lock_retrying_eq read_unlock_eq ..

lemma ctx_lock_run:
  assumes "lock_retrying cfg m obj_ids owner w = (Inr u, w1)" and "body w1 = (r, w2)"
  shows "ctx_lock cfg m obj_ids owner auto_unlock dry_run body w
       = (r, if released auto_unlock dry_run r then unlock m obj_ids owner w2 else w2)"
  using assms by (cases r) (auto simp: ctx_lock_def released_def Let_def)

lemma ctx_lock_failed:
  assumes "lock_retrying cfg m obj_ids owner w = (Inl e, w1)"
  shows "ctx_lock cfg m obj_ids owner auto_unlock dry_run body w = (Some e, w1)"
  using assms by (simp add: ctx_lock_def)

lemma unlock_table: "table (unlock m obj_ids owner w) = release (ids_of obj_ids) owner m (table w)"
  by (simp add: unlock_def)

lemma unlock_not_holds:
  "i \<in> set (ids_of obj_ids) \<Longrightarrow> \<not> holds (table (unlock m obj_ids owner w)) i owner m"
  by (simp add: unlock_table release_not_holds)

lemma unlock_not_member:
  "i \<in> set (ids_of obj_ids) \<Longrightarrow> holds (table w) i owner m \<Longrightarrow>
   \<not> holds_any (table (unlock m obj_ids owner w)) i owner"
  by (simp add: unlock_table release_not_member)

lemma ctx_lock_auto_unlock:
  assumes acq: "lock_retrying cfg m obj_ids owner w = (Inr u, w1)" and body: "body w1 = (r, w2)"
  shows "ctx_lock cfg m obj_ids owner True False body w = (r, unlock m obj_ids owner w2)
     \<and> (\<forall>i\<in>set (ids_of obj_ids).
          \<not> holds (table (snd (ctx_lock cfg m obj_ids owner True False body w))) i owner m)
     \<and> ((\<forall>i\<in>set (ids_of obj_ids). table w2 i = table w1 i) \<longrightarrow>
        (\<forall>i\<in>set (ids_of obj_ids).
          \<not> holds_any (table (snd (ctx_lock cfg m obj_ids owner True False body w))) i owner))"
proof -
  have run: "ctx_lock cfg m obj_ids owner True False body w = (r, unlock m obj_ids owner w2)"
    using acq body by (simp add: ctx_lock_run released_def)
  have kept: "holds (table w2) i owner m"
    if "i \<in> set (ids_of obj_ids)" and "\<forall>i\<in>set (ids_of obj_ids). table w2 i = table w1 i" for i
    using that lock_retrying_holds [OF acq, of i] holds_depends [of "table w2" i "table w1" owner m]
    by simp
  show ?thesis
    by (simp add: run unlock_not_holds) (blast intro: kept dest: unlock_not_member)
qed

section \<open>Scoped acquisition: the claims\<close>

lemmas lock_eval =
  lock_retrying_def lock_or_raise_def acquire_def try_acquire_def compatible_def hold_def
  cfg0_def w0_def sleep_def Let_def

lemma alice_write_acquired: "write_lock_retrying cfg0 (OneId ''A'') ''alice'' w0 = (Inr (), w_alice_write)"
  by (simp add: write_lock_retrying_eq lock_eval retry.simps w_alice_write_def)

lemma alice_read_acquired: "read_lock_retrying cfg0 (OneId ''A'') ''alice'' w0 = (Inr (), w_alice_read)"
  by (simp add: read_lock_retrying_eq lock_eval retry.simps w_alice_read_def)

text \<open>
  C1. Scoped acquisition with \<open>auto_unlock = True\<close> and \<open>dry_run = False\<close>. Once the lock is
  acquired, whatever the outcome \<open>r\<close> of the block (it completes, or it raises any exception),
  the wrapper passes that outcome on and ends with the unlock applied to the world the block
  left; the owner then holds the acquired mode on none of the ids. If the block left the
  records of the ids as the acquisition made them, the owner is a holder of none of them in any
  mode.
\<close>

theorem scoped_auto_unlock_leaves_no_lock:
  "(write_lock_retrying cfg obj_ids owner w = (Inr (), w1) \<and> body w1 = (r, w2) \<longrightarrow>
      ctx_write_lock cfg obj_ids owner True False body w = (r, write_unlock obj_ids owner w2)
      \<and> (\<forall>i\<in>set (ids_of obj_ids).
           \<not> holds (table (snd (ctx_write_lock cfg obj_ids owner True False body w))) i owner Write)
      \<and> ((\<forall>i\<in>set (ids_of obj_ids). table w2 i = table w1 i) \<longrightarrow>
         (\<forall>i\<in>set (ids_of obj_ids).
           \<not> holds_any (table (snd (ctx_write_lock cfg obj_ids owner True False body w))) i owner)))
   \<and> (read_lock_retrying cfg obj_ids owner w = (Inr (), w1) \<and> body w1 = (r, w2) \<longrightarrow>
      ctx_read_lock cfg obj_ids owner True False body w = (r, read_unlock obj_ids owner w2)
      \<and> (\<forall>i\<in>set (ids_of obj_ids).
           \<not> holds (table (snd (ctx_read_lock cfg obj_ids owner True False body w))) i owner Read)
      \<and> ((\<forall>i\<in>set (ids_of obj_ids). table w2 i = table w1 i) \<longrightarrow>
         (\<forall>i\<in>set (ids_of obj_ids).
           \<not> holds_any (table (snd (ctx_read_lock cfg obj_ids owner True False body w))) i owner)))"
proof (rule conjI)
  show "write_lock_retrying cfg obj_ids owner w = (Inr (), w1) \<and> body w1 = (r, w2) \<longrightarrow>
      ctx_write_lock cfg obj_ids owner True False body w = (r, write_unlock obj_ids owner w2)
      \<and> (\<forall>i\<in>set (ids_of obj_ids).
           \<not> holds (table (snd (ctx_write_lock cfg obj_ids owner True False body w))) i owner Write)
      \<and> ((\<forall>i\<in>set (ids_of obj_ids). table w2 i = table w1 i) \<longrightarrow>
         (\<forall>i\<in>set (ids_of obj_ids).
           \<not> holds_any (table (snd (ctx_write_lock cfg obj_ids owner True False body w))) i owner))"
    unfolding write_lock_retrying_eq ctx_write_lock_eq write_unlock_eq
    by (rule impI, elim conjE, rule ctx_lock_auto_unlock)
next
  show "read_lock_retrying cfg obj_ids owner w = (Inr (), w1) \<and> body w1 = (r, w2) \<longrightarrow>
      ctx_read_lock cfg obj_ids owner True False body w = (r, read_unlock obj_ids owner w2)
      \<and> (\<forall>i\<in>set (ids_of obj_ids).
           \<not> holds (table (snd (ctx_read_lock cfg obj_ids owner True False body w))) i owner Read)
      \<and> ((\<forall>i\<in>set (ids_of obj_ids). table w2 i = table w1 i) \<longrightarrow>
         (\<forall>i\<in>set (ids_of obj_ids).
           \<not> holds_any (table (snd (ctx_read_lock cfg obj_ids owner True False body w))) i owner))"
    unfolding read_lock_retrying_eq ctx_read_lock_eq read_unlock_eq
    by (rule impI, elim conjE, rule ctx_lock_auto_unlock)
qed

text \<open>
  C1, at concrete inputs: a write lock around a block that raises \<open>KeyError\<close>, and a read lock
  around a block that completes.
\<close>

theorem scoped_auto_unlock_leaves_no_lock_witness:
  "write_lock_retrying cfg0 (OneId ''A'') ''alice'' w0 = (Inr (), w_alice_write)
   \<and> raises_builtin w_alice_write = (Some (BuiltinException ''KeyError''), w_alice_write)
   \<and> fst (ctx_write_lock cfg0 (OneId ''A'') ''alice'' True False raises_builtin w0)
       = Some (BuiltinException ''KeyError'')
   \<and> \<not> holds_any (table (snd (ctx_write_lock cfg0 (OneId ''A'') ''alice'' True False raises_builtin w0)))
         ''A'' ''alice''
   \<and> read_lock_retrying cfg0 (OneId ''A'') ''alice'' w0 = (Inr (), w_alice_read)
   \<and> completes w_alice_read = (None, w_alice_read)
   \<and> fst (ctx_read_lock cfg0 (OneId ''A'') ''alice'' True False completes w0) = None
   \<and> \<not> holds_any (table (snd (ctx_read_lock cfg0 (OneId ''A'') ''alice'' True False completes w0)))
         ''A'' ''alice''"
  using scoped_auto_unlock_leaves_no_lock
      [of cfg0 "OneId ''A''" "''alice''" w0 w_alice_write raises_builtin
          "Some (BuiltinException ''KeyError'')" w_alice_write, THEN conjunct1]
    scoped_auto_unlock_leaves_no_lock
      [of cfg0 "OneId ''A''" "''alice''" w0 w_alice_read completes None w_alice_read, THEN conjunct2]
    alice_write_acquired alice_read_acquired
  by (simp add: raises_builtin_def completes_def write_unlock_def read_unlock_def unlock_def
      release_def release_one_def holds_any_def w_alice_write_def w_alice_read_def)

lemma ctx_lock_keep:
  assumes acq: "lock_retrying cfg m obj_ids owner w = (Inr u, w1)" and body: "body w1 = (r, w2)"
  shows "(\<forall>i\<in>set (ids_of obj_ids). holds (table w1) i owner m)
     \<and> (r = None \<longrightarrow> ctx_lock cfg m obj_ids owner False False body w = (None, w2))
     \<and> (\<forall>e. r = Some e \<and> isinstance_Arcor2Exception e \<longrightarrow>
          ctx_lock cfg m obj_ids owner False False body w = (Some e, unlock m obj_ids owner w2)
          \<and> (\<forall>i\<in>set (ids_of obj_ids). \<not> holds (table (unlock m obj_ids owner w2)) i owner m))
     \<and> (\<forall>e. r = Some e \<and> \<not> isinstance_Arcor2Exception e \<longrightarrow>
          ctx_lock cfg m obj_ids owner False False body w = (Some e, w2))"
  using acq body lock_retrying_holds [OF acq]
  by (simp add: ctx_lock_run released_def unlock_not_holds)

text \<open>
  C2, as amended. Scoped acquisition with \<open>auto_unlock = False\<close> and \<open>dry_run = False\<close>. The
  lock is held when the block starts. When the block completes, the wrapper ends in the world
  the block left, with no unlock. When the block raises an \<open>Arcor2Exception\<close> (or an exception
  derived from it), the wrapper unlocks and the owner holds the acquired mode on none of the
  ids. When the block raises an exception outside that hierarchy, the \<^verbatim>\<open>except\<close> clause does
  not apply and the wrapper ends in the world the block left, with no unlock.
\<close>

theorem scoped_keep_releases_on_arcor2_exception:
  "(write_lock_retrying cfg obj_ids owner w = (Inr (), w1) \<and> body w1 = (r, w2) \<longrightarrow>
      (\<forall>i\<in>set (ids_of obj_ids). holds (table w1) i owner Write)
      \<and> (r = None \<longrightarrow> ctx_write_lock cfg obj_ids owner False False body w = (None, w2))
      \<and> (\<forall>e. r = Some e \<and> isinstance_Arcor2Exception e \<longrightarrow>
           ctx_write_lock cfg obj_ids owner False False body w = (Some e, write_unlock obj_ids owner w2)
           \<and> (\<forall>i\<in>set (ids_of obj_ids). \<not> holds (table (write_unlock obj_ids owner w2)) i owner Write))
      \<and> (\<forall>e. r = Some e \<and> \<not> isinstance_Arcor2Exception e \<longrightarrow>
           ctx_write_lock cfg obj_ids owner False False body w = (Some e, w2)))
   \<and> (read_lock_retrying cfg obj_ids owner w = (Inr (), w1) \<and> body w1 = (r, w2) \<longrightarrow>
      (\<forall>i\<in>set (ids_of obj_ids). holds (table w1) i owner Read)
      \<and> (r = None \<longrightarrow> ctx_read_lock cfg obj_ids owner False False body w = (None, w2))
      \<and> (\<forall>e. r = Some e \<and> isinstance_Arcor2Exception e \<longrightarrow>
           ctx_read_lock cfg obj_ids owner False False body w = (Some e, read_unlock obj_ids owner w2)
           \<and> (\<forall>i\<in>set (ids_of obj_ids). \<not> holds (table (read_unlock obj_ids owner w2)) i owner Read))
      \<and> (\<forall>e. r = Some e \<and> \<not> isinstance_Arcor2Exception e \<longrightarrow>
           ctx_read_lock cfg obj_ids owner False False body w = (Some e, w2)))"
  unfolding write_lock_retrying_eq ctx_write_lock_eq write_unlock_eq
    read_lock_retrying_eq ctx_read_lock_eq read_unlock_eq
  by (intro conjI; rule impI, elim conjE, rule ctx_lock_keep)

text \<open>
  C2 as amended, at concrete inputs: a write lock around a block that raises an
  \<open>Arcor2Exception\<close>, and a read lock around a block that completes.
\<close>

theorem scoped_keep_releases_on_arcor2_exception_witness:
  "write_lock_retrying cfg0 (OneId ''A'') ''alice'' w0 = (Inr (), w_alice_write)
   \<and> raises_arcor2 w_alice_write = (Some (Arcor2Exception ''failed''), w_alice_write)
   \<and> isinstance_Arcor2Exception (Arcor2Exception ''failed'')
   \<and> ctx_write_lock cfg0 (OneId ''A'') ''alice'' False False raises_arcor2 w0
       = (Some (Arcor2Exception ''failed''), write_unlock (OneId ''A'') ''alice'' w_alice_write)
   \<and> \<not> holds (table (write_unlock (OneId ''A'') ''alice'' w_alice_write)) ''A'' ''alice'' Write
   \<and> read_lock_retrying cfg0 (OneId ''A'') ''alice'' w0 = (Inr (), w_alice_read)
   \<and> completes w_alice_read = (None, w_alice_read)
   \<and> ctx_read_lock cfg0 (OneId ''A'') ''alice'' False False completes w0 = (None, w_alice_read)
   \<and> holds (table w_alice_read) ''A'' ''alice'' Read"
  using scoped_keep_releases_on_arcor2_exception
      [of cfg0 "OneId ''A''" "''alice''" w0 w_alice_write raises_arcor2
          "Some (Arcor2Exception ''failed'')" w_alice_write, THEN conjunct1]
    scoped_keep_releases_on_arcor2_exception
      [of cfg0 "OneId ''A''" "''alice''" w0 w_alice_read completes None w_alice_read, THEN conjunct2]
    alice_write_acquired alice_read_acquired
  by (simp add: raises_arcor2_def completes_def)

text \<open>
  C2 as stated fails: with \<open>auto_unlock = False\<close> and \<open>dry_run = False\<close>, a block that raises
  \<open>KeyError\<close> leaves the lock held by the owner, for the write wrapper and for the read wrapper.
\<close>

theorem scoped_keep_builtin_exception_counterexample:
  "fst (ctx_write_lock cfg0 (OneId ''A'') ''alice'' False False raises_builtin w0)
     = Some (BuiltinException ''KeyError'')
   \<and> holds (table (snd (ctx_write_lock cfg0 (OneId ''A'') ''alice'' False False raises_builtin w0)))
        ''A'' ''alice'' Write
   \<and> fst (ctx_read_lock cfg0 (OneId ''A'') ''alice'' False False raises_builtin w0)
     = Some (BuiltinException ''KeyError'')
   \<and> holds (table (snd (ctx_read_lock cfg0 (OneId ''A'') ''alice'' False False raises_builtin w0)))
        ''A'' ''alice'' Read"
  by (simp add: ctx_write_lock_def ctx_read_lock_def alice_write_acquired alice_read_acquired
      raises_builtin_def holds_def w_alice_write_def w_alice_read_def)

lemma ctx_lock_dry_run:
  assumes acq: "lock_retrying cfg m obj_ids owner w = (Inr u, w1)" and body: "body w1 = (r, w2)"
  shows "ctx_lock cfg m obj_ids owner auto_unlock True body w = (r, unlock m obj_ids owner w2)
     \<and> (\<forall>i\<in>set (ids_of obj_ids).
          \<not> holds (table (snd (ctx_lock cfg m obj_ids owner auto_unlock True body w))) i owner m)
     \<and> (wf_table (table w) \<and> (\<forall>i\<in>set (ids_of obj_ids). \<not> holds_any (table w) i owner)
          \<and> table w2 = table w1 \<longrightarrow>
        table (snd (ctx_lock cfg m obj_ids owner auto_unlock True body w)) = table w)"
proof -
  have run: "ctx_lock cfg m obj_ids owner auto_unlock True body w = (r, unlock m obj_ids owner w2)"
    using acq body by (simp add: ctx_lock_run released_def)
  have restore: "table (unlock m obj_ids owner w2) = table w"
    if wf: "wf_table (table w)" and free: "\<forall>i\<in>set (ids_of obj_ids). \<not> holds_any (table w) i owner"
      and same: "table w2 = table w1"
  proof -
    from lock_retrying_success [OF acq]
    have c: "list_all (compatible (table w) owner m) (ids_of obj_ids)"
      and t1: "table w1 = fold (hold None owner m) (ids_of obj_ids) (table w)" by simp_all
    show ?thesis
      using release_fold_hold_restores [OF wf c free] by (simp add: unlock_table same t1)
  qed
  show ?thesis
    by (simp add: run unlock_not_holds restore)
qed

text \<open>
  C3, as amended. Scoped acquisition with \<open>dry_run = True\<close>, whatever \<open>auto_unlock\<close> is. Once
  the lock is acquired, whatever the outcome of the block, the wrapper ends with the unlock
  applied to the world the block left, and the owner holds the acquired mode on none of the
  ids. If moreover the table was well formed, the owner was a holder of none of the ids before
  entry, and the block left the table as the acquisition made it, the table after the wrapper
  is the table before entry.
\<close>

theorem scoped_dry_run_releases:
  "(write_lock_retrying cfg obj_ids owner w = (Inr (), w1) \<and> body w1 = (r, w2) \<longrightarrow>
      ctx_write_lock cfg obj_ids owner auto_unlock True body w = (r, write_unlock obj_ids owner w2)
      \<and> (\<forall>i\<in>set (ids_of obj_ids).
           \<not> holds (table (snd (ctx_write_lock cfg obj_ids owner auto_unlock True body w))) i owner Write)
      \<and> (wf_table (table w) \<and> (\<forall>i\<in>set (ids_of obj_ids). \<not> holds_any (table w) i owner)
           \<and> table w2 = table w1 \<longrightarrow>
         table (snd (ctx_write_lock cfg obj_ids owner auto_unlock True body w)) = table w))
   \<and> (read_lock_retrying cfg obj_ids owner w = (Inr (), w1) \<and> body w1 = (r, w2) \<longrightarrow>
      ctx_read_lock cfg obj_ids owner auto_unlock True body w = (r, read_unlock obj_ids owner w2)
      \<and> (\<forall>i\<in>set (ids_of obj_ids).
           \<not> holds (table (snd (ctx_read_lock cfg obj_ids owner auto_unlock True body w))) i owner Read)
      \<and> (wf_table (table w) \<and> (\<forall>i\<in>set (ids_of obj_ids). \<not> holds_any (table w) i owner)
           \<and> table w2 = table w1 \<longrightarrow>
         table (snd (ctx_read_lock cfg obj_ids owner auto_unlock True body w)) = table w))"
  unfolding write_lock_retrying_eq ctx_write_lock_eq write_unlock_eq
    read_lock_retrying_eq ctx_read_lock_eq read_unlock_eq
  by (intro conjI; rule impI, elim conjE, rule ctx_lock_dry_run)

lemma wf_table_empty: "wf_table Map.empty"
  by (simp add: wf_table_def)

text \<open>
  C3 as amended, at concrete inputs: on the empty table, a dry run of the write wrapper around
  a block that raises and of the read wrapper around a block that completes both give the
  empty table back.
\<close>

theorem scoped_dry_run_releases_witness:
  "write_lock_retrying cfg0 (OneId ''A'') ''alice'' w0 = (Inr (), w_alice_write)
   \<and> raises_builtin w_alice_write = (Some (BuiltinException ''KeyError''), w_alice_write)
   \<and> wf_table (table w0) \<and> \<not> holds_any (table w0) ''A'' ''alice''
   \<and> fst (ctx_write_lock cfg0 (OneId ''A'') ''alice'' False True raises_builtin w0)
       = Some (BuiltinException ''KeyError'')
   \<and> table (snd (ctx_write_lock cfg0 (OneId ''A'') ''alice'' False True raises_builtin w0)) = table w0
   \<and> read_lock_retrying cfg0 (OneId ''A'') ''alice'' w0 = (Inr (), w_alice_read)
   \<and> completes w_alice_read = (None, w_alice_read)
   \<and> fst (ctx_read_lock cfg0 (OneId ''A'') ''alice'' False True completes w0) = None
   \<and> table (snd (ctx_read_lock cfg0 (OneId ''A'') ''alice'' False True completes w0)) = table w0"
  using scoped_dry_run_releases
      [of cfg0 "OneId ''A''" "''alice''" w0 w_alice_write raises_builtin
          "Some (BuiltinException ''KeyError'')" w_alice_write False, THEN conjunct1]
    scoped_dry_run_releases
      [of cfg0 "OneId ''A''" "''alice''" w0 w_alice_read completes None w_alice_read False,
       THEN conjunct2]
    alice_write_acquired alice_read_acquired wf_table_empty
  by (clarsimp simp: raises_builtin_def completes_def holds_any_def w0_def)

lemma alice_write_again:
  "write_lock_retrying cfg0 (OneId ''A'') ''alice'' w_alice_write
   = (Inr (), w_alice_write\<lparr>trace := trace w_alice_write @ [Attempt Write [''A''] ''alice'']\<rparr>)"
  by (simp add: write_lock_retrying_eq lock_retrying_def lock_or_raise_def acquire_def
      try_acquire_def compatible_def hold_def cfg0_def Let_def retry.simps w_alice_write_def)

lemma alice_read_again:
  "read_lock_retrying cfg0 (OneId ''A'') ''alice'' w_alice_read
   = (Inr (), w_alice_read\<lparr>trace := trace w_alice_read @ [Attempt Read [''A''] ''alice'']\<rparr>)"
  by (simp add: read_lock_retrying_eq lock_retrying_def lock_or_raise_def acquire_def
      try_acquire_def compatible_def hold_def cfg0_def Let_def retry.simps w_alice_read_def)

text \<open>
  C3 as stated fails: an owner that already holds the lock (here after a scoped acquisition
  with \<open>auto_unlock = False\<close>) acquires it again in a dry run, since the table lets the sole
  holder re-enter, and the release of the dry run removes the hold the owner had before entry.
\<close>

theorem scoped_dry_run_drops_held_lock_counterexample:
  "snd (ctx_write_lock cfg0 (OneId ''A'') ''alice'' False False completes w0) = w_alice_write
   \<and> holds (table w_alice_write) ''A'' ''alice'' Write
   \<and> fst (ctx_write_lock cfg0 (OneId ''A'') ''alice'' False True completes w_alice_write) = None
   \<and> \<not> holds (table (snd (ctx_write_lock cfg0 (OneId ''A'') ''alice'' False True completes
                             w_alice_write))) ''A'' ''alice'' Write
   \<and> snd (ctx_read_lock cfg0 (OneId ''A'') ''alice'' False False completes w0) = w_alice_read
   \<and> holds (table w_alice_read) ''A'' ''alice'' Read
   \<and> fst (ctx_read_lock cfg0 (OneId ''A'') ''alice'' False True completes w_alice_read) = None
   \<and> \<not> holds (table (snd (ctx_read_lock cfg0 (OneId ''A'') ''alice'' False True completes
                             w_alice_read))) ''A'' ''alice'' Read"
  by (simp add: ctx_write_lock_def ctx_read_lock_def alice_write_acquired alice_read_acquired
      alice_write_again alice_read_again completes_def write_unlock_def read_unlock_def unlock_def
      release_def release_one_def holds_def)
     (simp add: w_alice_write_def w_alice_read_def)

lemma ctx_lock_reraises:
  assumes acq: "lock_retrying cfg m obj_ids owner w = (Inr u, w1)" and body: "body w1 = (Some e, w2)"
  shows "ctx_lock cfg m obj_ids owner auto_unlock dry_run body w
       = (Some e, if dry_run \<or> auto_unlock \<or> isinstance_Arcor2Exception e
                  then unlock m obj_ids owner w2 else w2)"
  using acq body by (simp add: ctx_lock_run released_def)

text \<open>
  C4. When the lock is acquired and the block raises \<open>e\<close>, the wrapper raises that same \<open>e\<close>,
  after the release its policy asks for: one unlock when \<open>dry_run\<close> or \<open>auto_unlock\<close> is set or
  \<open>e\<close> is an \<open>Arcor2Exception\<close>, none otherwise.
\<close>

theorem scoped_reraises_unchanged:
  "(write_lock_retrying cfg obj_ids owner w = (Inr (), w1) \<and> body w1 = (Some e, w2) \<longrightarrow>
      ctx_write_lock cfg obj_ids owner auto_unlock dry_run body w
      = (Some e, if dry_run \<or> auto_unlock \<or> isinstance_Arcor2Exception e
                 then write_unlock obj_ids owner w2 else w2))
   \<and> (read_lock_retrying cfg obj_ids owner w = (Inr (), w1) \<and> body w1 = (Some e, w2) \<longrightarrow>
      ctx_read_lock cfg obj_ids owner auto_unlock dry_run body w
      = (Some e, if dry_run \<or> auto_unlock \<or> isinstance_Arcor2Exception e
                 then read_unlock obj_ids owner w2 else w2))"
  unfolding write_lock_retrying_eq ctx_write_lock_eq write_unlock_eq
    read_lock_retrying_eq ctx_read_lock_eq read_unlock_eq
  by (intro conjI; rule impI, elim conjE, rule ctx_lock_reraises)

text \<open>
  C4, at concrete inputs: an \<open>Arcor2Exception\<close> through the write wrapper and a \<open>KeyError\<close>
  through the read wrapper.
\<close>

theorem scoped_reraises_unchanged_witness:
  "write_lock_retrying cfg0 (OneId ''A'') ''alice'' w0 = (Inr (), w_alice_write)
   \<and> raises_arcor2 w_alice_write = (Some (Arcor2Exception ''failed''), w_alice_write)
   \<and> fst (ctx_write_lock cfg0 (OneId ''A'') ''alice'' True False raises_arcor2 w0)
       = Some (Arcor2Exception ''failed'')
   \<and> read_lock_retrying cfg0 (OneId ''A'') ''alice'' w0 = (Inr (), w_alice_read)
   \<and> raises_builtin w_alice_read = (Some (BuiltinException ''KeyError''), w_alice_read)
   \<and> ctx_read_lock cfg0 (OneId ''A'') ''alice'' False False raises_builtin w0
       = (Some (BuiltinException ''KeyError''), w_alice_read)"
  using scoped_reraises_unchanged
      [of cfg0 "OneId ''A''" "''alice''" w0 w_alice_write raises_arcor2
          "Arcor2Exception ''failed''" w_alice_write True False, THEN conjunct1]
    scoped_reraises_unchanged
      [of cfg0 "OneId ''A''" "''alice''" w0 w_alice_read raises_builtin
          "BuiltinException ''KeyError''" w_alice_read False False, THEN conjunct2]
    alice_write_acquired alice_read_acquired
  by (clarsimp simp: raises_arcor2_def raises_builtin_def)

lemma count_attempts_in_pairs:
  "count_list (concat (replicate k [Attempt m ids owner, Wait d])) (Attempt m ids owner) = k"
  by (induction k) simp_all

lemma count_waits_in_pairs:
  "count_list (concat (replicate k [Attempt m ids owner, Wait d])) (Wait d) = k"
  by (induction k) simp_all

lemma attempts_trace_counts:
  assumes "0 < n"
  shows "count_list (attempts_trace n (Attempt m ids owner) d) (Attempt m ids owner) = n"
    and "count_list (attempts_trace n (Attempt m ids owner) d) (Wait d) = n - 1"
  using assms by (simp_all add: attempts_trace_def count_attempts_in_pairs count_waits_in_pairs)

lemma ctx_lock_exhausted:
  assumes n: "0 < lock_retries cfg" and c: "fst (acquire cfg obj_ids owner m w) = Inr False"
  shows "ctx_lock cfg m obj_ids owner auto_unlock dry_run body w
       = (Some (CannotLock (LOCK_FAIL cfg)),
          w\<lparr>trace := trace w @ attempts_trace (lock_retries cfg) (Attempt m (ids_of obj_ids) owner)
                                  (retry_wait cfg)\<rparr>)"
  using retry_lock_exhausted [OF n c, of "retry_wait cfg"]
  by (simp add: ctx_lock_def lock_retrying_def)

text \<open>
  C5. When the configured number of attempts is at least one and the acquisition is refused for
  contention (nothing else changes the table during the waits, so it is refused at every
  attempt), the wrapper raises \<open>CannotLock\<close> with the configured message, does not run the
  block, and leaves the table as it was; the log grows by exactly \<open>lock_retries\<close> attempts
  with \<open>lock_retries - 1\<close> waits of \<open>retry_wait\<close> between them.
\<close>

theorem scoped_gives_up_after_all_attempts:
  "(0 < lock_retries cfg \<and> fst (write_lock cfg obj_ids owner w) = Inr False \<longrightarrow>
      ctx_write_lock cfg obj_ids owner auto_unlock dry_run body w
      = (Some (CannotLock (LOCK_FAIL cfg)),
         w\<lparr>trace := trace w @ attempts_trace (lock_retries cfg) (Attempt Write (ids_of obj_ids) owner)
                                 (retry_wait cfg)\<rparr>)
      \<and> table (snd (ctx_write_lock cfg obj_ids owner auto_unlock dry_run body w)) = table w
      \<and> count_list (attempts_trace (lock_retries cfg) (Attempt Write (ids_of obj_ids) owner) (retry_wait cfg))
           (Attempt Write (ids_of obj_ids) owner) = lock_retries cfg
      \<and> count_list (attempts_trace (lock_retries cfg) (Attempt Write (ids_of obj_ids) owner) (retry_wait cfg))
           (Wait (retry_wait cfg)) = lock_retries cfg - 1)
   \<and> (0 < lock_retries cfg \<and> fst (read_lock cfg obj_ids owner w) = Inr False \<longrightarrow>
      ctx_read_lock cfg obj_ids owner auto_unlock dry_run body w
      = (Some (CannotLock (LOCK_FAIL cfg)),
         w\<lparr>trace := trace w @ attempts_trace (lock_retries cfg) (Attempt Read (ids_of obj_ids) owner)
                                 (retry_wait cfg)\<rparr>)
      \<and> table (snd (ctx_read_lock cfg obj_ids owner auto_unlock dry_run body w)) = table w
      \<and> count_list (attempts_trace (lock_retries cfg) (Attempt Read (ids_of obj_ids) owner) (retry_wait cfg))
           (Attempt Read (ids_of obj_ids) owner) = lock_retries cfg
      \<and> count_list (attempts_trace (lock_retries cfg) (Attempt Read (ids_of obj_ids) owner) (retry_wait cfg))
           (Wait (retry_wait cfg)) = lock_retries cfg - 1)"
  by (simp add: ctx_write_lock_eq ctx_read_lock_eq write_lock_def read_lock_def
      ctx_lock_exhausted attempts_trace_counts)

lemma bob_write_contended: "fst (write_lock cfg0 (OneId ''A'') ''bob'' w_alice_write) = Inr False"
  by (simp add: write_lock_def acquire_def try_acquire_def compatible_def cfg0_def Let_def
      w_alice_write_def)

lemma bob_read_contended: "fst (read_lock cfg0 (OneId ''A'') ''bob'' w_alice_write) = Inr False"
  by (simp add: read_lock_def acquire_def try_acquire_def compatible_def cfg0_def Let_def
      w_alice_write_def)

text \<open>
  C5, at concrete inputs: three attempts and two waits for an id that another owner has
  write-locked.
\<close>

theorem scoped_gives_up_after_all_attempts_witness:
  "0 < lock_retries cfg0
   \<and> fst (write_lock cfg0 (OneId ''A'') ''bob'' w_alice_write) = Inr False
   \<and> ctx_write_lock cfg0 (OneId ''A'') ''bob'' True False completes w_alice_write
       = (Some (CannotLock ''Locking failed.''),
          w_alice_write\<lparr>trace :=
            [Attempt Write [''A''] ''alice'',
             Attempt Write [''A''] ''bob'', Wait (1 / 2),
             Attempt Write [''A''] ''bob'', Wait (1 / 2),
             Attempt Write [''A''] ''bob'']\<rparr>)
   \<and> fst (read_lock cfg0 (OneId ''A'') ''bob'' w_alice_write) = Inr False
   \<and> ctx_read_lock cfg0 (OneId ''A'') ''bob'' True False completes w_alice_write
       = (Some (CannotLock ''Locking failed.''),
          w_alice_write\<lparr>trace :=
            [Attempt Write [''A''] ''alice'',
             Attempt Read [''A''] ''bob'', Wait (1 / 2),
             Attempt Read [''A''] ''bob'', Wait (1 / 2),
             Attempt Read [''A''] ''bob'']\<rparr>)"
  using scoped_gives_up_after_all_attempts
      [of cfg0 "OneId ''A''" "''bob''" w_alice_write True False completes, THEN conjunct1]
    scoped_gives_up_after_all_attempts
      [of cfg0 "OneId ''A''" "''bob''" w_alice_write True False completes, THEN conjunct2]
    bob_write_contended bob_read_contended
  by (clarsimp simp: cfg0_def attempts_trace_def w_alice_write_def numeral_3_eq_3)

section \<open>Query helpers: the claims\<close>

lemma tree_write_acquired: "acquire_tree cfg0 ''scene1'' ''alice'' Write w0 = (Inr True, w_tree_write)"
  by (simp add: acquire_tree_def try_acquire_def compatible_def hold_def cfg0_def w0_def Let_def
      w_tree_write_def tree_record_def)

lemma tree_read_acquired: "acquire_tree cfg0 ''scene1'' ''alice'' Read w0 = (Inr True, w_tree_read)"
  by (simp add: acquire_tree_def try_acquire_def compatible_def hold_def cfg0_def w0_def Let_def
      w_tree_read_def tree_record_def)

lemmas query_eval =
  is_write_locked_def is_read_locked_def is_locked_def holds_directly_def covered_by_tree_def
  holds_def via_tree_def

text \<open>
  C6. \<open>ensure_write_locked\<close> returns normally exactly when the owner holds a write lock on the
  id directly or, with \<open>locked_tree\<close> set, through a tree lock that covers the id. In every
  other case it raises the \<open>LockingException\<close>. It is a single query of the table: the world
  (table and log) is the same afterwards, so nothing is attempted again and no lock state
  changes.
\<close>

theorem ensure_write_locked_iff:
  "(fst (ensure_write_locked w obj_id owner locked_tree) = None)
     = (holds_directly (table w) obj_id owner Write
        \<or> (locked_tree \<and> covered_by_tree (table w) obj_id owner Write))
   \<and> (fst (ensure_write_locked w obj_id owner locked_tree) = None
      \<or> fst (ensure_write_locked w obj_id owner locked_tree)
          = Some (LockingException ''Object is not write locked.''))
   \<and> snd (ensure_write_locked w obj_id owner locked_tree) = w"
  by (simp add: ensure_write_locked_def is_write_locked_def is_locked_def)

text \<open>
  C6, at concrete inputs: a direct hold, a hold through a tree lock with and without
  \<open>locked_tree\<close>, and another owner.
\<close>

theorem ensure_write_locked_iff_witness:
  "ensure_write_locked w_alice_write ''A'' ''alice'' False = (None, w_alice_write)
   \<and> ensure_write_locked w_tree_write ''obj1'' ''alice'' True = (None, w_tree_write)
   \<and> ensure_write_locked w_tree_write ''obj1'' ''alice'' False
       = (Some (LockingException ''Object is not write locked.''), w_tree_write)
   \<and> ensure_write_locked w_alice_write ''A'' ''bob'' True
       = (Some (LockingException ''Object is not write locked.''), w_alice_write)"
  using ensure_write_locked_iff [of w_alice_write "''A''" "''alice''" False]
    ensure_write_locked_iff [of w_tree_write "''obj1''" "''alice''" True]
    ensure_write_locked_iff [of w_tree_write "''obj1''" "''alice''" False]
    ensure_write_locked_iff [of w_alice_write "''A''" "''bob''" True]
  by (simp add: ensure_write_locked_def query_eval w_alice_write_def w_tree_write_def
      tree_record_def)

text \<open>
  C7. When the read-lock check fails, \<open>ensure_read_locked\<close> raises a \<open>LockingException\<close> whose
  message is exactly \<^verbatim>\<open>Object is not write locked.\<close>, the message that \<open>ensure_write_locked\<close>
  raises when the write-lock check fails.
\<close>

theorem ensure_read_locked_message:
  "(\<not> is_read_locked w obj_id owner False \<longrightarrow>
      ensure_read_locked w obj_id owner locked_tree
      = (Some (LockingException ''Object is not write locked.''), w))
   \<and> (\<not> is_write_locked w obj_id owner locked_tree \<longrightarrow>
      ensure_write_locked w obj_id owner locked_tree
      = (Some (LockingException ''Object is not write locked.''), w))"
  by (simp add: ensure_read_locked_def ensure_write_locked_def)

text \<open>C7, at concrete inputs: an id that nobody has locked.\<close>

theorem ensure_read_locked_message_witness:
  "\<not> is_read_locked w0 ''A'' ''alice'' False
   \<and> ensure_read_locked w0 ''A'' ''alice'' False
       = (Some (LockingException ''Object is not write locked.''), w0)
   \<and> \<not> is_write_locked w0 ''A'' ''alice'' False
   \<and> ensure_write_locked w0 ''A'' ''alice'' False
       = (Some (LockingException ''Object is not write locked.''), w0)"
  using ensure_read_locked_message [of w0 "''A''" "''alice''" False]
  by (simp add: query_eval w0_def)

text \<open>
  What the comprehension of \<open>get_unlocked_objects\<close> selects: the given ids for which the
  table's check for the calling owner, without the tree flag, is false.
\<close>

lemma get_unlocked_objects_eq:
  "get_unlocked_objects w obj_ids owner
   = {obj_id \<in> set (ids_of obj_ids). \<not> holds_directly (table w) obj_id owner Write}"
  by (simp add: get_unlocked_objects_def is_write_locked_def is_locked_def)



text \<open>
  C9. The code at the failing input: after a tree read lock on \<open>scene1\<close> by \<open>alice\<close>, the id
  \<open>obj1\<close> is covered by it and the table's check with the tree flag says so, yet
  \<open>ensure_read_locked\<close> with \<open>locked_tree = True\<close> raises, because it does not hand the flag
  on. \<open>ensure_write_locked\<close> in the same situation with a tree write lock returns normally.
\<close>

theorem ensure_read_locked_ignores_tree:
  "acquire_tree cfg0 ''scene1'' ''alice'' Read w0 = (Inr True, w_tree_read)
   \<and> covered_by_tree (table w_tree_read) ''obj1'' ''alice'' Read
   \<and> is_read_locked w_tree_read ''obj1'' ''alice'' True
   \<and> fst (ensure_read_locked w_tree_read ''obj1'' ''alice'' True)
       = Some (LockingException ''Object is not write locked.'')
   \<and> acquire_tree cfg0 ''scene1'' ''alice'' Write w0 = (Inr True, w_tree_write)
   \<and> covered_by_tree (table w_tree_write) ''obj1'' ''alice'' Write
   \<and> fst (ensure_write_locked w_tree_write ''obj1'' ''alice'' True) = None"
  by (simp add: tree_read_acquired tree_write_acquired ensure_read_locked_def
      ensure_write_locked_def query_eval w_tree_read_def w_tree_write_def tree_record_def)

end
